theory Spec2Isabelle
  imports Complex_Main
begin

section \<open>The physics worker of \<open>src/components/EngineView.tsx\<close>\<close>

text \<open>
  The worker script \<open>PHYSICS_WORKER_CODE\<close> keeps one module-level array \<open>objects\<close> and
  handles five message types (\<open>INIT\<close>, \<open>SPAWN\<close>, \<open>STEP\<close>, \<open>EXPLOSION\<close>, \<open>RESET\<close>).

  Numbers. The script computes in JavaScript doubles and stores positions and velocities
  in \<open>Float32Array\<close>s. Here every number is a \<open>real\<close>: the rounding of a store into a
  \<open>Float32Array\<close> and of each double operation is not modelled, and the values
  \<open>NaN\<close> and \<open>\<plusminus>Infinity\<close> do not exist. Where JavaScript would produce one of them
  (a quotient by zero), HOL's \<open>x / 0 = 0\<close> is not what the script computes; theorems that
  depend on such a quotient exclude the zero divisor by a hypothesis.
\<close>

subsection \<open>Data\<close>

text \<open>A three-element \<open>Float32Array\<close>, read and written at the indices 0, 1 and 2.\<close>

record vec3 =
  c0 :: real
  c1 :: real
  c2 :: real

text \<open>
  The payload of \<open>SPAWN\<close> (and each element of the payload of \<open>INIT\<close>) carries \<open>pos\<close>,
  \<open>vel\<close> and \<open>radius\<close>; an element of \<open>objects\<close> has the same three fields and
  \<open>prevPos\<close> and \<open>invMass\<close> besides.
\<close>

record spawn_payload =
  pos :: vec3
  vel :: vec3
  radius :: real

record body = spawn_payload +
  prevPos :: vec3
  invMass :: real

definition WORLD_SIZE :: real where
  "WORLD_SIZE = 25"

definition GRAVITY :: real where
  "GRAVITY = - 9.81 * 0.001"

definition DAMPING :: real where
  "DAMPING = 0.995"

definition FRICTION :: real where
  "FRICTION = 0.95"

subsection \<open>\<open>STEP\<close>: the prediction step (lines 53-73)\<close>

text \<open>
  The body of the first inner loop, one assignment after the other: gravity on
  \<open>vel[1]\<close>, damping of the three velocity components, the copy of \<open>pos\<close> into
  \<open>prevPos\<close>, and the integration of \<open>pos\<close> with the velocity just computed.
\<close>

definition predict :: "real \<Rightarrow> body \<Rightarrow> body" where
  "predict h obj =
    (let o1 = obj\<lparr>vel := (vel obj)\<lparr>c1 := c1 (vel obj) + GRAVITY * h\<rparr>\<rparr>;
         o2 = o1\<lparr>vel := (vel o1)\<lparr>c0 := c0 (vel o1) * DAMPING\<rparr>\<rparr>;
         o3 = o2\<lparr>vel := (vel o2)\<lparr>c1 := c1 (vel o2) * DAMPING\<rparr>\<rparr>;
         o4 = o3\<lparr>vel := (vel o3)\<lparr>c2 := c2 (vel o3) * DAMPING\<rparr>\<rparr>;
         o5 = o4\<lparr>prevPos := (prevPos o4)\<lparr>c0 := c0 (pos o4)\<rparr>\<rparr>;
         o6 = o5\<lparr>prevPos := (prevPos o5)\<lparr>c1 := c1 (pos o5)\<rparr>\<rparr>;
         o7 = o6\<lparr>prevPos := (prevPos o6)\<lparr>c2 := c2 (pos o6)\<rparr>\<rparr>;
         o8 = o7\<lparr>pos := (pos o7)\<lparr>c0 := c0 (pos o7) + c0 (vel o7) * h\<rparr>\<rparr>;
         o9 = o8\<lparr>pos := (pos o8)\<lparr>c1 := c1 (pos o8) + c1 (vel o8) * h\<rparr>\<rparr>
     in o9\<lparr>pos := (pos o9)\<lparr>c2 := c2 (pos o9) + c2 (vel o9) * h\<rparr>\<rparr>)"

subsection \<open>\<open>STEP\<close>: floor and walls (lines 79-98)\<close>

definition floor_constraint :: "body \<Rightarrow> body" where
  "floor_constraint obj =
    (if c1 (pos obj) < radius obj then
       (let o1 = obj\<lparr>pos := (pos obj)\<lparr>c1 := radius obj\<rparr>\<rparr>;
            o2 = o1\<lparr>vel := (vel o1)\<lparr>c0 := c0 (vel o1) * FRICTION\<rparr>\<rparr>
        in o2\<lparr>vel := (vel o2)\<lparr>c2 := c2 (vel o2) * FRICTION\<rparr>\<rparr>)
     else obj)"

text \<open>\<open>Math.sign\<close> is \<open>sgn\<close> and \<open>Math.abs\<close> is \<open>abs\<close> on the reals.\<close>

definition boundary_x :: "body \<Rightarrow> body" where
  "boundary_x obj =
    (if \<bar>c0 (pos obj)\<bar> > WORLD_SIZE then
       (let o1 = obj\<lparr>pos := (pos obj)\<lparr>c0 := sgn (c0 (pos obj)) * WORLD_SIZE\<rparr>\<rparr>
        in o1\<lparr>vel := (vel o1)\<lparr>c0 := c0 (vel o1) * (- 0.5)\<rparr>\<rparr>)
     else obj)"

definition boundary_z :: "body \<Rightarrow> body" where
  "boundary_z obj =
    (if \<bar>c2 (pos obj)\<bar> > WORLD_SIZE then
       (let o1 = obj\<lparr>pos := (pos obj)\<lparr>c2 := sgn (c2 (pos obj)) * WORLD_SIZE\<rparr>\<rparr>
        in o1\<lparr>vel := (vel o1)\<lparr>c2 := c2 (vel o1) * (- 0.5)\<rparr>\<rparr>)
     else obj)"

definition environment :: "body \<Rightarrow> body" where
  "environment obj = boundary_z (boundary_x (floor_constraint obj))"

subsection \<open>\<open>STEP\<close>: particle-particle constraints (lines 101-131)\<close>

text \<open>
  The body of the innermost loop for the two objects \<open>a = objects[i]\<close> and
  \<open>b = objects[j]\<close>, returning both as the assignments leave them.
\<close>

definition resolve :: "body \<Rightarrow> body \<Rightarrow> body \<times> body" where
  "resolve a b =
    (let dx = c0 (pos b) - c0 (pos a);
         dy = c1 (pos b) - c1 (pos a);
         dz = c2 (pos b) - c2 (pos a);
         distSq = dx * dx + dy * dy + dz * dz;
         minDist = radius a + radius b
     in if distSq < minDist * minDist \<and> distSq > 0.00001 then
          (let dist = sqrt distSq;
               overlap = minDist - dist;
               nx = dx / dist;
               ny = dy / dist;
               nz = dz / dist;
               totalInvMass = invMass a + invMass b;
               corrA = overlap * (invMass a / totalInvMass);
               corrB = overlap * (invMass b / totalInvMass)
           in (a\<lparr>pos := \<lparr>c0 = c0 (pos a) - nx * corrA,
                          c1 = c1 (pos a) - ny * corrA,
                          c2 = c2 (pos a) - nz * corrA\<rparr>\<rparr>,
               b\<lparr>pos := \<lparr>c0 = c0 (pos b) + nx * corrB,
                          c1 = c1 (pos b) + ny * corrB,
                          c2 = c2 (pos b) + nz * corrB\<rparr>\<rparr>))
        else (a, b))"

text \<open>
  The two loops over \<open>i\<close> and \<open>j = i + 1, ..., objects.length - 1\<close>. Both indices are
  below the length, which no assignment changes.
\<close>

definition resolve_at :: "nat \<Rightarrow> nat \<Rightarrow> body list \<Rightarrow> body list" where
  "resolve_at i j objs =
    (let (a, b) = resolve (objs ! i) (objs ! j)
     in (objs[i := a])[j := b])"

definition pair_inner :: "nat \<Rightarrow> body list \<Rightarrow> body list" where
  "pair_inner i objs = fold (resolve_at i) [Suc i ..< length objs] objs"

definition particle_constraints :: "body list \<Rightarrow> body list" where
  "particle_constraints objs = fold pair_inner [0 ..< length objs] objs"

subsection \<open>\<open>STEP\<close>: velocity update (lines 135-144)\<close>

text \<open>The three quotients (lines 137-139), then the three tests against \<open>0.001\<close>
  (lines 141-143), in the order of the statements.\<close>

definition reconstruct :: "real \<Rightarrow> body \<Rightarrow> body" where
  "reconstruct h obj =
    (let o1 = obj\<lparr>vel := (vel obj)\<lparr>c0 := (c0 (pos obj) - c0 (prevPos obj)) / h\<rparr>\<rparr>;
         o2 = o1\<lparr>vel := (vel o1)\<lparr>c1 := (c1 (pos o1) - c1 (prevPos o1)) / h\<rparr>\<rparr>
     in o2\<lparr>vel := (vel o2)\<lparr>c2 := (c2 (pos o2) - c2 (prevPos o2)) / h\<rparr>\<rparr>)"

definition snap0 :: "body \<Rightarrow> body" where
  "snap0 obj = (if \<bar>c0 (vel obj)\<bar> < 0.001 then obj\<lparr>vel := (vel obj)\<lparr>c0 := 0\<rparr>\<rparr> else obj)"

definition snap1 :: "body \<Rightarrow> body" where
  "snap1 obj = (if \<bar>c1 (vel obj)\<bar> < 0.001 then obj\<lparr>vel := (vel obj)\<lparr>c1 := 0\<rparr>\<rparr> else obj)"

definition snap2 :: "body \<Rightarrow> body" where
  "snap2 obj = (if \<bar>c2 (vel obj)\<bar> < 0.001 then obj\<lparr>vel := (vel obj)\<lparr>c2 := 0\<rparr>\<rparr> else obj)"

definition velocity_update :: "real \<Rightarrow> body \<Rightarrow> body" where
  "velocity_update h obj = snap2 (snap1 (snap0 (reconstruct h obj)))"

subsection \<open>\<open>STEP\<close>: substeps and the reply (lines 47-153)\<close>

text \<open>One of the four iterations of the constraint loop: floor and walls for every
  object, then the pairwise pass.\<close>

definition constraint_iteration :: "body list \<Rightarrow> body list" where
  "constraint_iteration objs = particle_constraints (map environment objs)"

definition substep :: "real \<Rightarrow> body list \<Rightarrow> body list" where
  "substep h objs =
    map (velocity_update h) ((constraint_iteration ^^ 4) (map (predict h) objs))"

text \<open>
  \<open>const dt = payload.dt || 1.0\<close>: the default is taken when \<open>payload.dt\<close> is falsy.
  \<open>None\<close> is a payload without the field \<open>dt\<close>; of the numbers of this model only
  \<open>0\<close> is falsy.
\<close>

definition step_dt :: "real option \<Rightarrow> real" where
  "step_dt payload_dt =
    (case payload_dt of None \<Rightarrow> 1.0 | Some d \<Rightarrow> if d = 0 then 1.0 else d)"

definition step_h :: "real option \<Rightarrow> real" where
  "step_h payload_dt = (let dt = step_dt payload_dt; substeps = 12 in dt / substeps)"

definition step_objects :: "real option \<Rightarrow> body list \<Rightarrow> body list" where
  "step_objects payload_dt objs = ((substep (step_h payload_dt)) ^^ 12) objs"

definition positions :: "body list \<Rightarrow> real list" where
  "positions objs = concat (map (\<lambda>obj. [c0 (pos obj), c1 (pos obj), c2 (pos obj)]) objs)"

subsection \<open>\<open>INIT\<close> and \<open>SPAWN\<close> (lines 26-44)\<close>

definition make_body :: "spawn_payload \<Rightarrow> body" where
  "make_body obj =
    \<lparr>pos = \<lparr>c0 = c0 (pos obj), c1 = c1 (pos obj), c2 = c2 (pos obj)\<rparr>,
     vel = \<lparr>c0 = c0 (vel obj), c1 = c1 (vel obj), c2 = c2 (vel obj)\<rparr>,
     radius = radius obj,
     prevPos = \<lparr>c0 = c0 (pos obj), c1 = c1 (pos obj), c2 = c2 (pos obj)\<rparr>,
     invMass = 1.0\<rparr>"

subsection \<open>\<open>EXPLOSION\<close> and \<open>RESET\<close> (lines 156-173)\<close>

text \<open>
  \<open>Math.random()\<close> is modelled by the sequence \<open>rnd\<close> of the values its next calls
  return: a call returns \<open>rnd 0\<close> and leaves the sequence shifted by one. Each object
  takes three values, in the order of the three assignments.
\<close>

fun explosion :: "body list \<Rightarrow> (nat \<Rightarrow> real) \<Rightarrow> body list \<times> (nat \<Rightarrow> real)" where
  "explosion [] rnd = ([], rnd)"
| "explosion (obj # rest) rnd =
    (let force = 3.5;
         o1 = obj\<lparr>vel := (vel obj)\<lparr>c0 := c0 (vel obj) + (rnd 0 - 0.5) * force\<rparr>\<rparr>;
         o2 = o1\<lparr>vel := (vel o1)\<lparr>c1 := c1 (vel o1) + rnd 1 * force * 1.5\<rparr>\<rparr>;
         o3 = o2\<lparr>vel := (vel o2)\<lparr>c2 := c2 (vel o2) + (rnd 2 - 0.5) * force\<rparr>\<rparr>;
         (rest', rnd') = explosion rest (\<lambda>n. rnd (n + 3))
     in (o3 # rest', rnd'))"

fun respawn :: "body list \<Rightarrow> (nat \<Rightarrow> real) \<Rightarrow> body list \<times> (nat \<Rightarrow> real)" where
  "respawn [] rnd = ([], rnd)"
| "respawn (obj # rest) rnd =
    (let o1 = obj\<lparr>pos := (pos obj)\<lparr>c0 := (rnd 0 - 0.5) * 5.0\<rparr>\<rparr>;
         o2 = o1\<lparr>pos := (pos o1)\<lparr>c1 := 10 + rnd 1 * 20\<rparr>\<rparr>;
         o3 = o2\<lparr>pos := (pos o2)\<lparr>c2 := (rnd 2 - 0.5) * 5.0\<rparr>\<rparr>;
         o4 = o3\<lparr>vel := \<lparr>c0 = 0, c1 = 0, c2 = 0\<rparr>\<rparr>;
         (rest', rnd') = respawn rest (\<lambda>n. rnd (n + 3))
     in (o4 # rest', rnd'))"

subsection \<open>The message handler (lines 22-175)\<close>

text \<open>
  The messages by their \<open>type\<close>, each with the payload the handler may read. A
  \<open>STEP\<close> payload has the field \<open>dt\<close> or not. The caller sends \<open>RESET\<close> with no
  payload; a count sent with it would be a payload the \<open>RESET\<close> case never reads.
  \<open>OTHER\<close> is a message of any other type: the \<open>switch\<close> has no default case.
\<close>

datatype message =
    INIT "spawn_payload list"
  | SPAWN spawn_payload
  | STEP "real option"
  | EXPLOSION
  | RESET "nat option"
  | OTHER

text \<open>What the worker posts back: only \<open>STEP\<close> posts, one \<open>UPDATE\<close> with the
  flat array of positions.\<close>

datatype reply = UPDATE "real list"

record worker =
  objects :: "body list"
  random :: "nat \<Rightarrow> real"

fun onmessage :: "message \<Rightarrow> worker \<Rightarrow> worker \<times> reply list" where
  "onmessage (INIT payload) w = (w\<lparr>objects := map make_body payload\<rparr>, [])"
| "onmessage (SPAWN payload) w = (w\<lparr>objects := objects w @ [make_body payload]\<rparr>, [])"
| "onmessage (STEP payload_dt) w =
    (let objs = step_objects payload_dt (objects w)
     in (w\<lparr>objects := objs\<rparr>, [UPDATE (positions objs)]))"
| "onmessage EXPLOSION w =
    (let (objs, rnd) = explosion (objects w) (random w)
     in (w\<lparr>objects := objs, random := rnd\<rparr>, []))"
| "onmessage (RESET payload) w =
    (let (objs, rnd) = respawn (take 35 (objects w)) (random w)
     in (w\<lparr>objects := objs, random := rnd\<rparr>, []))"
| "onmessage OTHER w = (w, [])"

text \<open>A sequence of messages, handled one after the other (each runs to completion),
  with the replies in the order posted.\<close>

fun run :: "message list \<Rightarrow> worker \<Rightarrow> worker \<times> reply list" where
  "run [] w = (w, [])"
| "run (m # ms) w =
    (let (w1, out1) = onmessage m w; (w2, out2) = run ms w1 in (w2, out1 @ out2))"

subsection \<open>The local quantities of the pairwise step\<close>

text \<open>
  The values that the innermost loop body binds to \<open>distSq\<close>, \<open>overlap\<close>,
  \<open>(nx, ny, nz)\<close>, \<open>corrA\<close> and \<open>corrB\<close> for the pair \<open>(a, b)\<close>, as functions of the
  pair: the statements about \<open>resolve\<close> are written with them.
\<close>

definition distSq :: "body \<Rightarrow> body \<Rightarrow> real" where
  "distSq a b =
    (c0 (pos b) - c0 (pos a)) * (c0 (pos b) - c0 (pos a))
    + (c1 (pos b) - c1 (pos a)) * (c1 (pos b) - c1 (pos a))
    + (c2 (pos b) - c2 (pos a)) * (c2 (pos b) - c2 (pos a))"

definition overlap :: "body \<Rightarrow> body \<Rightarrow> real" where
  "overlap a b = (radius a + radius b) - sqrt (distSq a b)"

definition normal :: "body \<Rightarrow> body \<Rightarrow> vec3" where
  "normal a b =
    \<lparr>c0 = (c0 (pos b) - c0 (pos a)) / sqrt (distSq a b),
     c1 = (c1 (pos b) - c1 (pos a)) / sqrt (distSq a b),
     c2 = (c2 (pos b) - c2 (pos a)) / sqrt (distSq a b)\<rparr>"

definition corrA :: "body \<Rightarrow> body \<Rightarrow> real" where
  "corrA a b = overlap a b * (invMass a / (invMass a + invMass b))"

definition corrB :: "body \<Rightarrow> body \<Rightarrow> real" where
  "corrB a b = overlap a b * (invMass b / (invMass a + invMass b))"

subsection \<open>Concrete states used as instances\<close>

text \<open>A body whose position differs from its previous position by \<open>0.0005\<close>,
  \<open>1\<close> and \<open>- 0.0005\<close>.\<close>

definition drifting :: body where
  "drifting =
    \<lparr>pos = \<lparr>c0 = 0.0005, c1 = 1, c2 = - 0.0005\<rparr>, vel = \<lparr>c0 = 3, c1 = 3, c2 = 3\<rparr>,
     radius = 1, prevPos = \<lparr>c0 = 0, c1 = 0, c2 = 0\<rparr>, invMass = 1\<rparr>"

text \<open>A sphere of radius \<open>1\<close> at \<open>(x, y, z)\<close>, at rest, with inverse mass \<open>w\<close>.\<close>

definition sphere :: "real \<Rightarrow> real \<Rightarrow> real \<Rightarrow> real \<Rightarrow> body" where
  "sphere x y z w =
    \<lparr>pos = \<lparr>c0 = x, c1 = y, c2 = z\<rparr>, vel = \<lparr>c0 = 0, c1 = 0, c2 = 0\<rparr>,
     radius = 1, prevPos = \<lparr>c0 = x, c1 = y, c2 = z\<rparr>, invMass = w\<rparr>"

text \<open>The unit sphere at height \<open>10\<close> moving along the first axis, and a worker
  holding it alone.\<close>

definition mover :: body where
  "mover = (sphere 0 10 0 1)\<lparr>vel := \<lparr>c0 = 1, c1 = 0, c2 = 0\<rparr>\<rparr>"

definition moving_worker :: worker where
  "moving_worker = \<lparr>objects = [mover], random = (\<lambda>n. 0)\<rparr>"

text \<open>A worker with no object, and a payload of radius \<open>0\<close>.\<close>

definition empty_worker :: worker where
  "empty_worker = \<lparr>objects = [], random = (\<lambda>n. 0)\<rparr>"

definition flat_payload :: spawn_payload where
  "flat_payload =
    \<lparr>pos = \<lparr>c0 = 0, c1 = 5, c2 = 0\<rparr>, vel = \<lparr>c0 = 0, c1 = 0, c2 = 0\<rparr>, radius = 0\<rparr>"

text \<open>A store of 45 unit spheres, with \<open>Math.random()\<close> returning \<open>1/4\<close> and \<open>3/4\<close> in
  turn; and two workers that hold \<open>mover\<close> and differ in the random sequence only.\<close>

definition alternating :: "nat \<Rightarrow> real" where
  "alternating n = (if even n then 1 / 4 else 3 / 4)"


definition moving_worker' :: worker where
  "moving_worker' = \<lparr>objects = [mover], random = alternating\<rparr>"

subsection \<open>Radius and inverse mass of the objects, in order\<close>

definition sizes :: "body list \<Rightarrow> (real \<times> real) list" where
  "sizes objs = map (\<lambda>obj. (radius obj, invMass obj)) objs"

text \<open>Every object of the list has inverse mass \<open>1.0\<close>.\<close>

definition uniform :: "body list \<Rightarrow> bool" where
  "uniform objs = list_all (\<lambda>obj. invMass obj = 1) objs"

subsection \<open>The pairs of the pairwise pass\<close>

text \<open>
  \<open>pairs n\<close> lists the index pairs \<open>(i, j)\<close>, \<open>i < j < n\<close>, in the order in which the
  two loops of lines 101-103 visit them. \<open>hit a b\<close> is the test of line 111.
  \<open>displaced a n c\<close> is the object \<open>a\<close> with its position moved by \<open>c\<close> along \<open>n\<close>.
\<close>

definition pairs :: "nat \<Rightarrow> (nat \<times> nat) list" where
  "pairs n = concat (map (\<lambda>i. map (Pair i) [Suc i ..< n]) [0 ..< n])"

definition hit :: "body \<Rightarrow> body \<Rightarrow> bool" where
  "hit a b =
    (distSq a b < (radius a + radius b) * (radius a + radius b) \<and> distSq a b > 0.00001)"

definition displaced :: "body \<Rightarrow> vec3 \<Rightarrow> real \<Rightarrow> body" where
  "displaced a n c =
    a\<lparr>pos := \<lparr>c0 = c0 (pos a) + c0 n * c, c1 = c1 (pos a) + c1 n * c,
              c2 = c2 (pos a) + c2 n * c\<rparr>\<rparr>"

subsection \<open>The tolerance of the containment\<close>








text \<open>Two unit spheres at rest, the first on the floor and the second resting on it:
  the centres are exactly two radii apart.\<close>

definition resting :: worker where
  "resting = \<lparr>objects = [sphere 0 1 0 1, sphere 0 3 0 1], random = (\<lambda>n. 0)\<rparr>"


section \<open>The prediction step\<close>

text \<open>
  C3. In a substep of size \<open>h\<close> the prediction of one body adds \<open>GRAVITY * h\<close> to
  \<open>vel[1]\<close> (and \<open>GRAVITY\<close> is negative), then multiplies each velocity component by
  \<open>DAMPING = 0.995\<close> once, sets \<open>prevPos\<close> to the position before integration, and
  adds the new velocity times \<open>h\<close> to the position; \<open>radius\<close> and \<open>invMass\<close> are not
  modified.
\<close>

theorem predict_fields:
  "GRAVITY < 0 \<and> DAMPING = 0.995
   \<and> c0 (vel (predict h obj)) = c0 (vel obj) * DAMPING
   \<and> c1 (vel (predict h obj)) = (c1 (vel obj) + GRAVITY * h) * DAMPING
   \<and> c2 (vel (predict h obj)) = c2 (vel obj) * DAMPING
   \<and> prevPos (predict h obj) = pos obj
   \<and> c0 (pos (predict h obj)) = c0 (pos obj) + c0 (vel (predict h obj)) * h
   \<and> c1 (pos (predict h obj)) = c1 (pos obj) + c1 (vel (predict h obj)) * h
   \<and> c2 (pos (predict h obj)) = c2 (pos obj) + c2 (vel (predict h obj)) * h
   \<and> radius (predict h obj) = radius obj
   \<and> invMass (predict h obj) = invMass obj"
  by (simp add: predict_def Let_def GRAVITY_def DAMPING_def)


section \<open>The velocity update\<close>

lemma snap0_fields:
  "c0 (vel (snap0 obj)) = (if \<bar>c0 (vel obj)\<bar> < 0.001 then 0 else c0 (vel obj))"
  "c1 (vel (snap0 obj)) = c1 (vel obj)" "c2 (vel (snap0 obj)) = c2 (vel obj)"
  "pos (snap0 obj) = pos obj" "prevPos (snap0 obj) = prevPos obj"
  "radius (snap0 obj) = radius obj" "invMass (snap0 obj) = invMass obj"
  by (simp_all add: snap0_def)

lemma snap1_fields:
  "c1 (vel (snap1 obj)) = (if \<bar>c1 (vel obj)\<bar> < 0.001 then 0 else c1 (vel obj))"
  "c0 (vel (snap1 obj)) = c0 (vel obj)" "c2 (vel (snap1 obj)) = c2 (vel obj)"
  "pos (snap1 obj) = pos obj" "prevPos (snap1 obj) = prevPos obj"
  "radius (snap1 obj) = radius obj" "invMass (snap1 obj) = invMass obj"
  by (simp_all add: snap1_def)

lemma snap2_fields:
  "c2 (vel (snap2 obj)) = (if \<bar>c2 (vel obj)\<bar> < 0.001 then 0 else c2 (vel obj))"
  "c0 (vel (snap2 obj)) = c0 (vel obj)" "c1 (vel (snap2 obj)) = c1 (vel obj)"
  "pos (snap2 obj) = pos obj" "prevPos (snap2 obj) = prevPos obj"
  "radius (snap2 obj) = radius obj" "invMass (snap2 obj) = invMass obj"
  by (simp_all add: snap2_def)

lemma reconstruct_fields:
  "c0 (vel (reconstruct h obj)) = (c0 (pos obj) - c0 (prevPos obj)) / h"
  "c1 (vel (reconstruct h obj)) = (c1 (pos obj) - c1 (prevPos obj)) / h"
  "c2 (vel (reconstruct h obj)) = (c2 (pos obj) - c2 (prevPos obj)) / h"
  "pos (reconstruct h obj) = pos obj" "prevPos (reconstruct h obj) = prevPos obj"
  "radius (reconstruct h obj) = radius obj" "invMass (reconstruct h obj) = invMass obj"
  by (simp_all add: reconstruct_def Let_def)

lemma velocity_update_fields:
  "c0 (vel (velocity_update h obj)) =
     (if \<bar>(c0 (pos obj) - c0 (prevPos obj)) / h\<bar> < 0.001 then 0
      else (c0 (pos obj) - c0 (prevPos obj)) / h)"
  "c1 (vel (velocity_update h obj)) =
     (if \<bar>(c1 (pos obj) - c1 (prevPos obj)) / h\<bar> < 0.001 then 0
      else (c1 (pos obj) - c1 (prevPos obj)) / h)"
  "c2 (vel (velocity_update h obj)) =
     (if \<bar>(c2 (pos obj) - c2 (prevPos obj)) / h\<bar> < 0.001 then 0
      else (c2 (pos obj) - c2 (prevPos obj)) / h)"
  "pos (velocity_update h obj) = pos obj" "prevPos (velocity_update h obj) = prevPos obj"
  "radius (velocity_update h obj) = radius obj" "invMass (velocity_update h obj) = invMass obj"
  unfolding velocity_update_def
  by (simp_all only: snap0_fields snap1_fields snap2_fields reconstruct_fields)

text \<open>
  C4. After the constraint iterations of a substep of size \<open>h\<close> (the quotient needs
  \<open>h \<noteq> 0\<close>), each velocity component of a body is recomputed as
  \<open>(pos - prevPos) / h\<close>, and a component whose absolute value is below \<open>0.001\<close> is set
  to exactly \<open>0\<close>; in particular a component of reconstructed magnitude \<open>0.0005\<close>
  becomes \<open>0\<close>. Position, previous position, radius and inverse mass are not touched.
\<close>

theorem velocity_update_snap:
  assumes "h \<noteq> 0"
  shows "(let r0 = (c0 (pos obj) - c0 (prevPos obj)) / h;
              r1 = (c1 (pos obj) - c1 (prevPos obj)) / h;
              r2 = (c2 (pos obj) - c2 (prevPos obj)) / h;
              obj' = velocity_update h obj
          in c0 (vel obj') = (if \<bar>r0\<bar> < 0.001 then 0 else r0)
           \<and> c1 (vel obj') = (if \<bar>r1\<bar> < 0.001 then 0 else r1)
           \<and> c2 (vel obj') = (if \<bar>r2\<bar> < 0.001 then 0 else r2)
           \<and> (\<bar>r0\<bar> = 0.0005 \<longrightarrow> c0 (vel obj') = 0)
           \<and> (\<bar>r1\<bar> = 0.0005 \<longrightarrow> c1 (vel obj') = 0)
           \<and> (\<bar>r2\<bar> = 0.0005 \<longrightarrow> c2 (vel obj') = 0)
           \<and> pos obj' = pos obj \<and> prevPos obj' = prevPos obj
           \<and> radius obj' = radius obj \<and> invMass obj' = invMass obj)"
  unfolding Let_def
proof (intro conjI impI)
  show "\<bar>(c0 (pos obj) - c0 (prevPos obj)) / h\<bar> = 0.0005
    \<Longrightarrow> c0 (vel (velocity_update h obj)) = 0"
    by (simp only: velocity_update_fields) simp
  show "\<bar>(c1 (pos obj) - c1 (prevPos obj)) / h\<bar> = 0.0005
    \<Longrightarrow> c1 (vel (velocity_update h obj)) = 0"
    by (simp only: velocity_update_fields) simp
  show "\<bar>(c2 (pos obj) - c2 (prevPos obj)) / h\<bar> = 0.0005
    \<Longrightarrow> c2 (vel (velocity_update h obj)) = 0"
    by (simp only: velocity_update_fields) simp
qed (simp_all only: velocity_update_fields)

text \<open>With \<open>h = 1\<close> the body \<open>drifting\<close> has the quotients \<open>0.0005\<close>, \<open>1\<close> and
  \<open>- 0.0005\<close>: the first and the third become \<open>0\<close>, the second is kept.\<close>

theorem velocity_update_snap_witness:
  "(1::real) \<noteq> 0 \<and> vel (velocity_update 1 drifting) = \<lparr>c0 = 0, c1 = 1, c2 = 0\<rparr>"
  using velocity_update_snap [of 1 drifting]
  by (simp add: drifting_def Let_def)

section \<open>The pairwise correction\<close>

lemma resolve_unfold:
  "resolve a b =
    (if distSq a b < (radius a + radius b) * (radius a + radius b) \<and> distSq a b > 0.00001
     then
      (a\<lparr>pos := \<lparr>c0 = c0 (pos a) - c0 (normal a b) * corrA a b,
                 c1 = c1 (pos a) - c1 (normal a b) * corrA a b,
                 c2 = c2 (pos a) - c2 (normal a b) * corrA a b\<rparr>\<rparr>,
       b\<lparr>pos := \<lparr>c0 = c0 (pos b) + c0 (normal a b) * corrB a b,
                 c1 = c1 (pos b) + c1 (normal a b) * corrB a b,
                 c2 = c2 (pos b) + c2 (normal a b) * corrB a b\<rparr>\<rparr>)
     else (a, b))"
  unfolding resolve_def Let_def corrA_def corrB_def overlap_def normal_def vec3.simps
  unfolding distSq_def
  by (rule refl)

lemma unit_quotients:
  fixes x y z d :: real
  assumes "d * d = x * x + y * y + z * z" "d \<noteq> 0"
  shows "x / d * (x / d) + y / d * (y / d) + z / d * (z / d) = 1"
proof -
  have "x / d * (x / d) + y / d * (y / d) + z / d * (z / d)
        = (x * x + y * y + z * z) / (d * d)"
    by (simp add: add_divide_distrib)
  also have "\<dots> = 1" by (simp add: assms(1) [symmetric] assms(2))
  finally show ?thesis .
qed

lemma normal_unit:
  assumes "distSq a b > 0"
  shows "c0 (normal a b) * c0 (normal a b) + c1 (normal a b) * c1 (normal a b)
          + c2 (normal a b) * c2 (normal a b) = 1"
proof -
  have s: "sqrt (distSq a b) * sqrt (distSq a b) = distSq a b"
    using assms by simp
  have nz: "sqrt (distSq a b) \<noteq> 0" using assms by simp
  show ?thesis
    unfolding normal_def vec3.simps
    by (rule unit_quotients [OF _ nz]) (simp only: s, simp only: distSq_def)
qed

lemma share_sum:
  fixes v x y :: real
  assumes "x + y \<noteq> 0"
  shows "v * (x / (x + y)) + v * (y / (x + y)) = v"
proof -
  have "v * (x / (x + y)) + v * (y / (x + y)) = v * ((x + y) / (x + y))"
    by (simp only: add_divide_distrib distrib_left)
  also have "\<dots> = v" using assms by simp
  finally show ?thesis .
qed

lemma corr_sum:
  assumes "invMass a + invMass b \<noteq> 0"
  shows "corrA a b + corrB a b = overlap a b"
  unfolding corrA_def corrB_def by (rule share_sum [OF assms])

lemma corr_double:
  "invMass a = 2 * invMass b \<Longrightarrow> corrA a b = 2 * corrB a b"
  "invMass b = 2 * invMass a \<Longrightarrow> corrB a b = 2 * corrA a b"
  unfolding corrA_def corrB_def by simp_all

lemma corr_zero:
  "invMass a = 0 \<Longrightarrow> corrA a b = 0"
  "invMass b = 0 \<Longrightarrow> corrB a b = 0"
  unfolding corrA_def corrB_def by simp_all

text \<open>
  C2. For a pair \<open>(a, b)\<close> whose squared centre distance is below
  \<open>(radius a + radius b)\<^sup>2\<close> and above \<open>0.00001\<close> (and whose inverse masses do not sum to
  zero, so that the shares are quotients), one pairwise step moves \<open>a\<close> by
  \<open>overlap * invMass a / (invMass a + invMass b)\<close> against the unit contact normal and
  \<open>b\<close> by \<open>overlap * invMass b / (invMass a + invMass b)\<close> along it, with
  \<open>overlap = radius a + radius b - distance\<close>, and changes nothing else; the two
  corrections sum to the overlap; a body with twice the inverse mass of its partner
  gets twice the correction; a body with zero inverse mass does not move. A pair whose
  squared distance is at most \<open>0.00001\<close> is left unchanged.
\<close>

theorem resolve_mass_weighted:
  "(distSq a b < (radius a + radius b) * (radius a + radius b) \<and> distSq a b > 0.00001
      \<and> invMass a + invMass b \<noteq> 0 \<longrightarrow>
      resolve a b =
        (a\<lparr>pos := \<lparr>c0 = c0 (pos a) - c0 (normal a b) * corrA a b,
                   c1 = c1 (pos a) - c1 (normal a b) * corrA a b,
                   c2 = c2 (pos a) - c2 (normal a b) * corrA a b\<rparr>\<rparr>,
         b\<lparr>pos := \<lparr>c0 = c0 (pos b) + c0 (normal a b) * corrB a b,
                   c1 = c1 (pos b) + c1 (normal a b) * corrB a b,
                   c2 = c2 (pos b) + c2 (normal a b) * corrB a b\<rparr>\<rparr>)
      \<and> c0 (normal a b) * c0 (normal a b) + c1 (normal a b) * c1 (normal a b)
          + c2 (normal a b) * c2 (normal a b) = 1
      \<and> corrA a b + corrB a b = overlap a b
      \<and> (invMass a = 2 * invMass b \<longrightarrow> corrA a b = 2 * corrB a b)
      \<and> (invMass b = 2 * invMass a \<longrightarrow> corrB a b = 2 * corrA a b)
      \<and> (invMass a = 0 \<longrightarrow> fst (resolve a b) = a)
      \<and> (invMass b = 0 \<longrightarrow> snd (resolve a b) = b))
   \<and> (distSq a b \<le> 0.00001 \<longrightarrow> resolve a b = (a, b))"
proof (intro conjI impI)
  assume h: "distSq a b < (radius a + radius b) * (radius a + radius b)
      \<and> distSq a b > 0.00001 \<and> invMass a + invMass b \<noteq> 0"
  then have pos: "distSq a b > 0" by simp
  from h show "resolve a b =
        (a\<lparr>pos := \<lparr>c0 = c0 (pos a) - c0 (normal a b) * corrA a b,
                   c1 = c1 (pos a) - c1 (normal a b) * corrA a b,
                   c2 = c2 (pos a) - c2 (normal a b) * corrA a b\<rparr>\<rparr>,
         b\<lparr>pos := \<lparr>c0 = c0 (pos b) + c0 (normal a b) * corrB a b,
                   c1 = c1 (pos b) + c1 (normal a b) * corrB a b,
                   c2 = c2 (pos b) + c2 (normal a b) * corrB a b\<rparr>\<rparr>)"
    by (simp only: resolve_unfold if_True simp_thms)
  from pos show "c0 (normal a b) * c0 (normal a b) + c1 (normal a b) * c1 (normal a b)
          + c2 (normal a b) * c2 (normal a b) = 1"
    by (rule normal_unit)
  from h have "invMass a + invMass b \<noteq> 0" by simp
  then show "corrA a b + corrB a b = overlap a b"
    by (rule corr_sum)
  show "invMass a = 2 * invMass b \<Longrightarrow> corrA a b = 2 * corrB a b"
    by (rule corr_double)
  show "invMass b = 2 * invMass a \<Longrightarrow> corrB a b = 2 * corrA a b"
    by (rule corr_double)
  show "invMass a = 0 \<Longrightarrow> fst (resolve a b) = a"
    by (simp add: resolve_unfold corr_zero)
  show "invMass b = 0 \<Longrightarrow> snd (resolve a b) = b"
    by (simp add: resolve_unfold corr_zero)
next
  assume "distSq a b \<le> 0.00001"
  then show "resolve a b = (a, b)"
    by (simp add: resolve_unfold)
qed

text \<open>
  Three pairs of unit spheres: centres one apart with inverse masses \<open>2\<close> and \<open>1\<close>
  (overlap \<open>1\<close>, split \<open>2/3\<close> to \<open>1/3\<close>); the same centres with inverse masses \<open>0\<close> and
  \<open>1\<close> (the first stays, the second takes the whole overlap); and coincident centres.
\<close>

theorem resolve_mass_weighted_witness:
  "distSq (sphere 0 0 0 2) (sphere 0 1 0 1) < (1 + 1) * (1 + 1)
   \<and> distSq (sphere 0 0 0 2) (sphere 0 1 0 1) > 0.00001
   \<and> resolve (sphere 0 0 0 2) (sphere 0 1 0 1) =
       ((sphere 0 0 0 2)\<lparr>pos := \<lparr>c0 = 0, c1 = - (2 / 3), c2 = 0\<rparr>\<rparr>,
        (sphere 0 1 0 1)\<lparr>pos := \<lparr>c0 = 0, c1 = 4 / 3, c2 = 0\<rparr>\<rparr>)
   \<and> resolve (sphere 0 0 0 0) (sphere 0 1 0 1) =
       (sphere 0 0 0 0, (sphere 0 1 0 1)\<lparr>pos := \<lparr>c0 = 0, c1 = 2, c2 = 0\<rparr>\<rparr>)
   \<and> distSq (sphere 0 0 0 1) (sphere 0 0 0 1) \<le> 0.00001
   \<and> resolve (sphere 0 0 0 1) (sphere 0 0 0 1) = (sphere 0 0 0 1, sphere 0 0 0 1)"
  using resolve_mass_weighted [of "sphere 0 0 0 2" "sphere 0 1 0 1"]
    resolve_mass_weighted [of "sphere 0 0 0 0" "sphere 0 1 0 1"]
    resolve_mass_weighted [of "sphere 0 0 0 1" "sphere 0 0 0 1"]
  by (simp add: sphere_def distSq_def overlap_def normal_def corrA_def corrB_def)

section \<open>A store of one object\<close>

text \<open>With a single object the pairwise pass has no pair; a substep is then the
  composition of the per-object phases, which \<open>simp\<close> evaluates on concrete numbers.\<close>

lemma particle_constraints_single: "particle_constraints [b] = [b]"
  by (simp add: particle_constraints_def pair_inner_def)

lemma constraint_iteration_single: "constraint_iteration [b] = [environment b]"
  by (simp add: constraint_iteration_def particle_constraints_single)

lemma substep_single:
  "substep h [b] =
    [velocity_update h (environment (environment (environment (environment (predict h b)))))]"
  by (simp add: substep_def constraint_iteration_single numeral_eq_Suc)

lemmas single_eval =
  substep_single predict_def environment_def floor_constraint_def boundary_x_def
  boundary_z_def velocity_update_def reconstruct_def snap0_def snap1_def snap2_def Let_def
  GRAVITY_def DAMPING_def FRICTION_def WORLD_SIZE_def sphere_def step_objects_def
  step_h_def step_dt_def numeral_eq_Suc

section \<open>The time step of \<open>STEP\<close>\<close>

text \<open>
  C5, as stated, fails on the code: \<open>payload.dt || 1.0\<close> takes the default for a falsy
  \<open>dt\<close> only, and a negative number is not falsy. With \<open>dt = - 1\<close> the substep size is
  \<open>- 1 / 12\<close>, and the object \<open>mover\<close> ends on the other side of the origin than with
  \<open>dt = 1\<close>; the two replies differ.
\<close>

theorem step_negative_dt_counterexample:
  "step_h (Some (- 1)) = - (1 / 12) \<and> step_h (Some 1) = 1 / 12
   \<and> c0 (pos (hd (objects (fst (onmessage (STEP (Some (- 1))) moving_worker))))) < 0
   \<and> 0 < c0 (pos (hd (objects (fst (onmessage (STEP (Some 1)) moving_worker)))))
   \<and> snd (onmessage (STEP (Some (- 1))) moving_worker)
       \<noteq> snd (onmessage (STEP (Some 1)) moving_worker)"
  by (simp add: moving_worker_def mover_def positions_def single_eval)

text \<open>
  C5, amended. The substep size is computed from the default \<open>dt = 1.0\<close> when the
  field \<open>dt\<close> is absent or zero; for every other \<open>dt\<close>, negative ones included,
  \<open>h = dt / 12\<close>. A \<open>STEP\<close> with \<open>dt\<close> absent or zero behaves as a \<open>STEP\<close> with
  \<open>dt = 1.0\<close>.
\<close>

theorem step_dt_default:
  "step_h None = 1 / 12 \<and> step_h (Some 0) = 1 / 12
   \<and> (d \<noteq> 0 \<longrightarrow> step_h (Some d) = d / 12)
   \<and> onmessage (STEP None) w = onmessage (STEP (Some 1)) w
   \<and> onmessage (STEP (Some 0)) w = onmessage (STEP (Some 1)) w"
  by (simp add: step_objects_def step_h_def step_dt_def)

theorem step_dt_default_witness:
  "(- 1 :: real) \<noteq> 0 \<and> step_h (Some (- 1)) = - 1 / 12
   \<and> (5 :: real) \<noteq> 0 \<and> step_h (Some 5) = 5 / 12"
  using step_dt_default [of "- 1"] step_dt_default [of 5]
  by simp

section \<open>\<open>INIT\<close> and \<open>SPAWN\<close>\<close>

text \<open>
  C6, as stated, fails on the code: the worker has no validation and no error reply.
  A \<open>SPAWN\<close> (or an \<open>INIT\<close>) whose body has radius \<open>0\<close> is accepted: the store gains
  the body, and nothing is posted back.
\<close>

theorem spawn_zero_radius_counterexample:
  "radius flat_payload \<le> 0
   \<and> objects (fst (onmessage (SPAWN flat_payload) empty_worker)) \<noteq> objects empty_worker
   \<and> length (objects (fst (onmessage (SPAWN flat_payload) empty_worker))) = 1
   \<and> radius (hd (objects (fst (onmessage (SPAWN flat_payload) empty_worker)))) = 0
   \<and> snd (onmessage (SPAWN flat_payload) empty_worker) = []
   \<and> length (objects (fst (onmessage (INIT [flat_payload]) moving_worker))) = 1
   \<and> radius (hd (objects (fst (onmessage (INIT [flat_payload]) moving_worker)))) = 0
   \<and> snd (onmessage (INIT [flat_payload]) moving_worker) = []"
  by (simp add: flat_payload_def empty_worker_def moving_worker_def make_body_def)

text \<open>
  C6, amended. \<open>INIT\<close> and \<open>SPAWN\<close> check nothing and reject nothing. For every
  payload, whatever its radius, \<open>SPAWN\<close> appends one object with the payload's position,
  velocity and radius, \<open>prevPos\<close> equal to the position and \<open>invMass = 1\<close>, leaving the
  objects already in the store as they are; \<open>INIT\<close> replaces the store by the objects
  built in the same way from the payload, in its order. Neither posts a reply.
\<close>

theorem init_spawn_accept_all:
  "onmessage (SPAWN p) w =
     (w\<lparr>objects := objects w @
          [\<lparr>pos = pos p, vel = vel p, radius = radius p, prevPos = pos p, invMass = 1\<rparr>]\<rparr>, [])
   \<and> onmessage (INIT ps) w =
       (w\<lparr>objects := map (\<lambda>p. \<lparr>pos = pos p, vel = vel p, radius = radius p,
                                prevPos = pos p, invMass = 1\<rparr>) ps\<rparr>, [])
   \<and> length (objects (fst (onmessage (SPAWN p) w))) = length (objects w) + 1
   \<and> take (length (objects w)) (objects (fst (onmessage (SPAWN p) w))) = objects w
   \<and> length (objects (fst (onmessage (INIT ps) w))) = length ps"
  by (simp add: make_body_def)

section \<open>\<open>EXPLOSION\<close> and \<open>RESET\<close>\<close>

lemma vec3_updates:
  "v\<lparr>c0 := x, c1 := y, c2 := z\<rparr> = \<lparr>c0 = x, c1 = y, c2 = z\<rparr>"
  by (cases v) simp

lemma explosion_length: "length (fst (explosion objs rnd)) = length objs"
  by (induction objs arbitrary: rnd) (simp_all add: Let_def split_beta)

lemma explosion_random: "snd (explosion objs rnd) = (\<lambda>n. rnd (n + 3 * length objs))"
  by (induction objs arbitrary: rnd) (simp_all add: Let_def split_beta ac_simps)

lemma explosion_nth:
  "i < length objs \<Longrightarrow>
   fst (explosion objs rnd) ! i =
     (objs ! i)\<lparr>vel := \<lparr>c0 = c0 (vel (objs ! i)) + (rnd (3 * i) - 0.5) * 3.5,
                        c1 = c1 (vel (objs ! i)) + rnd (3 * i + 1) * 3.5 * 1.5,
                        c2 = c2 (vel (objs ! i)) + (rnd (3 * i + 2) - 0.5) * 3.5\<rparr>\<rparr>"
proof (induction objs arbitrary: rnd i)
  case Nil
  then show ?case by simp
next
  case (Cons obj rest)
  show ?case
  proof (cases i)
    case 0
    then show ?thesis by (simp add: Let_def split_beta vec3_updates numeral_2_eq_2)
  next
    case (Suc k)
    with Cons.prems have "k < length rest" by simp
    from Cons.IH [OF this, of "\<lambda>n. rnd (n + 3)"] Suc show ?thesis
      by (simp add: Let_def split_beta ac_simps)
  qed
qed

lemma respawn_length: "length (fst (respawn objs rnd)) = length objs"
  by (induction objs arbitrary: rnd) (simp_all add: Let_def split_beta)


lemma alternating_range: "0 \<le> alternating n \<and> alternating n < 1"
  by (simp add: alternating_def)

text \<open>
  C8. An \<open>EXPLOSION\<close> changes velocities only, whatever values \<open>Math.random()\<close>
  returns: the number of objects is the same, nothing is posted, and every object keeps
  its position, previous position, radius and inverse mass. The change of velocity is
  additive: with \<open>r, r', r''\<close> the three values drawn for the object (in this order),
  the first and third component gain \<open>(r - 0.5) * 3.5\<close> and \<open>(r'' - 0.5) * 3.5\<close> and the
  second gains \<open>r' * 3.5 * 1.5\<close>. For values in \<open>[0, 1)\<close> the horizontal terms lie in
  \<open>[- 1.75, 1.75)\<close>, centred at zero, and the vertical term in \<open>[0, 5.25)\<close>.
\<close>

theorem explosion_velocity_only:
  "length (objects (fst (onmessage EXPLOSION w))) = length (objects w)
   \<and> snd (onmessage EXPLOSION w) = []
   \<and> (i < length (objects w) \<longrightarrow>
       (let old = objects w ! i; new = objects (fst (onmessage EXPLOSION w)) ! i
        in pos new = pos old \<and> prevPos new = prevPos old
         \<and> radius new = radius old \<and> invMass new = invMass old
         \<and> c0 (vel new) = c0 (vel old) + (random w (3 * i) - 0.5) * 3.5
         \<and> c1 (vel new) = c1 (vel old) + random w (3 * i + 1) * 3.5 * 1.5
         \<and> c2 (vel new) = c2 (vel old) + (random w (3 * i + 2) - 0.5) * 3.5
         \<and> ((\<forall>n. 0 \<le> random w n \<and> random w n < 1) \<longrightarrow>
              - 1.75 \<le> c0 (vel new) - c0 (vel old) \<and> c0 (vel new) - c0 (vel old) < 1.75
            \<and> 0 \<le> c1 (vel new) - c1 (vel old) \<and> c1 (vel new) - c1 (vel old) < 5.25
            \<and> - 1.75 \<le> c2 (vel new) - c2 (vel old) \<and> c2 (vel new) - c2 (vel old) < 1.75)))"
proof (intro conjI impI)
  show "length (objects (fst (onmessage EXPLOSION w))) = length (objects w)"
    by (simp add: split_beta explosion_length)
  show "snd (onmessage EXPLOSION w) = []"
    by (simp add: split_beta)
next
  assume i: "i < length (objects w)"
  have new: "objects (fst (onmessage EXPLOSION w)) ! i = fst (explosion (objects w) (random w)) ! i"
    by (simp add: split_beta)
  show "let old = objects w ! i; new = objects (fst (onmessage EXPLOSION w)) ! i
        in pos new = pos old \<and> prevPos new = prevPos old
         \<and> radius new = radius old \<and> invMass new = invMass old
         \<and> c0 (vel new) = c0 (vel old) + (random w (3 * i) - 0.5) * 3.5
         \<and> c1 (vel new) = c1 (vel old) + random w (3 * i + 1) * 3.5 * 1.5
         \<and> c2 (vel new) = c2 (vel old) + (random w (3 * i + 2) - 0.5) * 3.5
         \<and> ((\<forall>n. 0 \<le> random w n \<and> random w n < 1) \<longrightarrow>
              - 1.75 \<le> c0 (vel new) - c0 (vel old) \<and> c0 (vel new) - c0 (vel old) < 1.75
            \<and> 0 \<le> c1 (vel new) - c1 (vel old) \<and> c1 (vel new) - c1 (vel old) < 5.25
            \<and> - 1.75 \<le> c2 (vel new) - c2 (vel old) \<and> c2 (vel new) - c2 (vel old) < 1.75)"
    unfolding Let_def new explosion_nth [OF i]
  proof (intro conjI impI)
    assume r: "\<forall>n. 0 \<le> random w n \<and> random w n < 1"
    from r have r0: "0 \<le> random w (3 * i)" "random w (3 * i) < 1" by simp_all
    from r have r1: "0 \<le> random w (3 * i + 1)" "random w (3 * i + 1) < 1" by simp_all
    from r have r2: "0 \<le> random w (3 * i + 2)" "random w (3 * i + 2) < 1" by simp_all
    let ?v = "\<lparr>c0 = c0 (vel (objects w ! i)) + (random w (3 * i) - 0.5) * 3.5,
               c1 = c1 (vel (objects w ! i)) + random w (3 * i + 1) * 3.5 * 1.5,
               c2 = c2 (vel (objects w ! i)) + (random w (3 * i + 2) - 0.5) * 3.5\<rparr>"
    let ?n = "(objects w ! i)\<lparr>vel := ?v\<rparr>"
    from r0 show "- 1.75 \<le> c0 (vel ?n) - c0 (vel (objects w ! i))" by simp
    from r0 show "c0 (vel ?n) - c0 (vel (objects w ! i)) < 1.75" by simp
    from r1 show "0 \<le> c1 (vel ?n) - c1 (vel (objects w ! i))" by simp
    from r1 show "c1 (vel ?n) - c1 (vel (objects w ! i)) < 5.25" by simp
    from r2 show "- 1.75 \<le> c2 (vel ?n) - c2 (vel (objects w ! i))" by simp
    from r2 show "c2 (vel ?n) - c2 (vel (objects w ! i)) < 1.75" by simp
  qed simp_all
qed

theorem explosion_velocity_only_witness:
  "(0::nat) < length (objects moving_worker')
   \<and> (\<forall>n. 0 \<le> random moving_worker' n \<and> random moving_worker' n < 1)
   \<and> pos (objects (fst (onmessage EXPLOSION moving_worker')) ! 0) = pos mover
   \<and> vel (objects (fst (onmessage EXPLOSION moving_worker')) ! 0)
       = \<lparr>c0 = 1 - 0.875, c1 = 3.9375, c2 = - 0.875\<rparr>"
proof -
  have v: "\<And>v. (v = \<lparr>c0 = 1 - 0.875, c1 = 3.9375, c2 = - 0.875\<rparr>)
      = (c0 v = 1 - 0.875 \<and> c1 v = 3.9375 \<and> c2 v = - 0.875)"
    by auto
  show ?thesis
    using explosion_velocity_only [of moving_worker' 0] alternating_range
    unfolding v
    by (simp add: moving_worker'_def mover_def sphere_def alternating_def Let_def)
qed




section \<open>Determinism of \<open>STEP\<close>\<close>

lemma step_random_free:
  "objects w1 = objects w2 \<Longrightarrow>
   objects (fst (onmessage (STEP d) w1)) = objects (fst (onmessage (STEP d) w2))
   \<and> snd (onmessage (STEP d) w1) = snd (onmessage (STEP d) w2)
   \<and> random (fst (onmessage (STEP d) w1)) = random w1"
  by (simp add: Let_def)

text \<open>
  C9. \<open>STEP\<close> draws no random value and reads nothing but the objects and \<open>dt\<close>: two
  runs of the same sequence of \<open>STEP\<close>s from workers with the same objects, whatever
  their random sequences, end with the same objects and post the same replies (the same
  position arrays, in the same order), and leave the random sequence as it was.
\<close>

theorem step_deterministic:
  "objects w1 = objects w2 \<Longrightarrow>
   objects (fst (run (map STEP dts) w1)) = objects (fst (run (map STEP dts) w2))
   \<and> snd (run (map STEP dts) w1) = snd (run (map STEP dts) w2)
   \<and> random (fst (run (map STEP dts) w1)) = random w1"
proof (induction dts arbitrary: w1 w2)
  case Nil
  then show ?case by simp
next
  case (Cons d dts)
  let ?a = "fst (onmessage (STEP d) w1)" and ?b = "fst (onmessage (STEP d) w2)"
  from step_random_free [OF Cons.prems, of d]
  have s: "objects ?a = objects ?b" "snd (onmessage (STEP d) w1) = snd (onmessage (STEP d) w2)"
    "random ?a = random w1"
    by simp_all
  from Cons.IH [OF s(1)] s(2) s(3) show ?case
    by (simp add: split_beta Let_def)
qed

theorem step_deterministic_witness:
  "objects moving_worker = objects moving_worker'
   \<and> random moving_worker \<noteq> random moving_worker'
   \<and> snd (run (map STEP [Some 1, None, Some (- 2)]) moving_worker)
       = snd (run (map STEP [Some 1, None, Some (- 2)]) moving_worker')
   \<and> objects (fst (run (map STEP [Some 1, None, Some (- 2)]) moving_worker))
       = objects (fst (run (map STEP [Some 1, None, Some (- 2)]) moving_worker'))"
proof -
  have "random moving_worker 1 \<noteq> random moving_worker' 1"
    by (simp add: moving_worker_def moving_worker'_def alternating_def)
  then have d: "random moving_worker \<noteq> random moving_worker'" by metis
  have o: "objects moving_worker = objects moving_worker'"
    by (simp add: moving_worker_def moving_worker'_def)
  from step_deterministic [OF o, of "[Some 1, None, Some (- 2)]"] d o show ?thesis
    by blast
qed

section \<open>What \<open>STEP\<close> leaves alone: length, radius and inverse mass\<close>

lemma sizes_length: "sizes s = sizes t \<Longrightarrow> length s = length t"
  unfolding sizes_def by (rule map_eq_imp_length_eq)

lemma sizes_nth:
  assumes "sizes s = sizes t" "k < length t"
  shows "radius (s ! k) = radius (t ! k)" "invMass (s ! k) = invMass (t ! k)"
proof -
  have l: "k < length s" using assms sizes_length by metis
  have "sizes s ! k = sizes t ! k" using assms by simp
  then have "(radius (s ! k), invMass (s ! k)) = (radius (t ! k), invMass (t ! k))"
    unfolding sizes_def using l assms(2) by simp
  then show "radius (s ! k) = radius (t ! k)" "invMass (s ! k) = invMass (t ! k)"
    by simp_all
qed

lemma sizes_map:
  assumes "\<And>obj. radius (f obj) = radius obj" "\<And>obj. invMass (f obj) = invMass obj"
  shows "sizes (map f objs) = sizes objs"
  unfolding sizes_def by (simp add: assms)

lemma predict_sizes: "radius (predict h obj) = radius obj" "invMass (predict h obj) = invMass obj"
  by (simp_all add: predict_def Let_def)

lemma floor_constraint_frame:
  "radius (floor_constraint obj) = radius obj" "invMass (floor_constraint obj) = invMass obj"
  "c0 (pos (floor_constraint obj)) = c0 (pos obj)" "c2 (pos (floor_constraint obj)) = c2 (pos obj)"
  "radius obj \<le> c1 (pos (floor_constraint obj))"
  by (simp_all add: floor_constraint_def Let_def)

lemma boundary_x_frame:
  "radius (boundary_x obj) = radius obj" "invMass (boundary_x obj) = invMass obj"
  "c1 (pos (boundary_x obj)) = c1 (pos obj)" "c2 (pos (boundary_x obj)) = c2 (pos obj)"
  by (simp_all add: boundary_x_def Let_def)


lemma boundary_z_frame:
  "radius (boundary_z obj) = radius obj" "invMass (boundary_z obj) = invMass obj"
  "c0 (pos (boundary_z obj)) = c0 (pos obj)" "c1 (pos (boundary_z obj)) = c1 (pos obj)"
  by (simp_all add: boundary_z_def Let_def)


lemma environment_sizes:
  "radius (environment obj) = radius obj" "invMass (environment obj) = invMass obj"
  by (simp_all add: environment_def floor_constraint_frame boundary_x_frame boundary_z_frame)


lemma resolve_sizes:
  "radius (fst (resolve a b)) = radius a" "invMass (fst (resolve a b)) = invMass a"
  "radius (snd (resolve a b)) = radius b" "invMass (snd (resolve a b)) = invMass b"
  by (simp_all add: resolve_unfold)

lemma resolve_at_length: "length (resolve_at i j objs) = length objs"
  by (simp add: resolve_at_def split_beta)

lemma resolve_at_nth:
  assumes "i < length objs" "j < length objs" "i \<noteq> j"
  shows "resolve_at i j objs ! k =
    (if k = i then fst (resolve (objs ! i) (objs ! j))
     else if k = j then snd (resolve (objs ! i) (objs ! j))
     else objs ! k)"
  using assms by (simp add: resolve_at_def split_beta nth_list_update)

lemma resolve_at_sizes:
  assumes "i < length objs" "j < length objs" "i \<noteq> j"
  shows "sizes (resolve_at i j objs) = sizes objs"
proof (rule nth_equalityI)
  show "length (sizes (resolve_at i j objs)) = length (sizes objs)"
    by (simp add: sizes_def resolve_at_length)
next
  fix k assume "k < length (sizes (resolve_at i j objs))"
  then have k: "k < length objs" by (simp add: sizes_def resolve_at_length)
  then show "sizes (resolve_at i j objs) ! k = sizes objs ! k"
    by (simp add: sizes_def resolve_at_length resolve_at_nth [OF assms] resolve_sizes)
qed

lemma fold_invariant:
  assumes "\<And>x s. x \<in> set xs \<Longrightarrow> I s \<Longrightarrow> I (f x s)" "I s"
  shows "I (fold f xs s)"
  using assms by (induction xs arbitrary: s) simp_all

lemma pair_inner_sizes:
  assumes "i < length objs"
  shows "sizes (pair_inner i objs) = sizes objs"
  unfolding pair_inner_def
proof (rule fold_invariant [where I = "\<lambda>s. sizes s = sizes objs"])
  fix j s assume j: "j \<in> set [Suc i..<length objs]" and s: "sizes s = sizes objs"
  from s have l: "length s = length objs" by (rule sizes_length)
  from j l assms have "i < length s" "j < length s" "i \<noteq> j" by simp_all
  then show "sizes (resolve_at i j s) = sizes objs"
    using s by (simp add: resolve_at_sizes)
qed (rule refl)

lemma particle_constraints_sizes: "sizes (particle_constraints objs) = sizes objs"
  unfolding particle_constraints_def
proof (rule fold_invariant [where I = "\<lambda>s. sizes s = sizes objs"])
  fix i s assume i: "i \<in> set [0..<length objs]" and s: "sizes s = sizes objs"
  from s have l: "length s = length objs" by (rule sizes_length)
  from i l have "i < length s" by simp
  then show "sizes (pair_inner i s) = sizes objs"
    using s by (simp add: pair_inner_sizes)
qed (rule refl)

lemma constraint_iteration_sizes: "sizes (constraint_iteration objs) = sizes objs"
  unfolding constraint_iteration_def
  by (simp add: particle_constraints_sizes sizes_map environment_sizes)

lemma funpow_invariant:
  assumes "\<And>s. I s \<Longrightarrow> I (f s)" "I s"
  shows "I ((f ^^ n) s)"
  using assms by (induction n) simp_all

lemma constraint_iterations_sizes: "sizes ((constraint_iteration ^^ n) objs) = sizes objs"
  by (rule funpow_invariant [where I = "\<lambda>s. sizes s = sizes objs"])
    (simp_all add: constraint_iteration_sizes)

lemma substep_sizes: "sizes (substep h objs) = sizes objs"
  unfolding substep_def
  by (simp add: sizes_map velocity_update_fields constraint_iterations_sizes predict_sizes)

lemma substeps_sizes: "sizes ((substep h ^^ n) objs) = sizes objs"
  by (rule funpow_invariant [where I = "\<lambda>s. sizes s = sizes objs"])
    (simp_all add: substep_sizes)

lemma step_objects_sizes: "sizes (step_objects d objs) = sizes objs"
  unfolding step_objects_def by (rule substeps_sizes)

lemma explosion_sizes: "sizes (fst (explosion objs rnd)) = sizes objs"
  by (induction objs arbitrary: rnd) (simp_all add: sizes_def Let_def split_beta)

lemma respawn_sizes: "sizes (fst (respawn objs rnd)) = sizes objs"
  by (induction objs arbitrary: rnd) (simp_all add: sizes_def Let_def split_beta)

section \<open>The inverse mass is \<open>1.0\<close> throughout\<close>

lemma uniform_sizes: "uniform objs = list_all (\<lambda>s. snd s = 1) (sizes objs)"
  by (simp add: uniform_def sizes_def list_all_iff)

lemma uniform_same_sizes: "sizes s = sizes t \<Longrightarrow> uniform s = uniform t"
  by (simp add: uniform_sizes)

lemma uniform_take: "uniform objs \<Longrightarrow> uniform (take n objs)"
  by (auto simp: uniform_def list_all_iff dest: in_set_takeD)

lemma onmessage_uniform:
  assumes "uniform (objects w)"
  shows "uniform (objects (fst (onmessage m w)))"
proof (cases m)
  case (INIT ps)
  then show ?thesis by (simp add: uniform_def list_all_iff make_body_def)
next
  case (SPAWN p)
  with assms show ?thesis by (simp add: uniform_def make_body_def)
next
  case (STEP d)
  with assms show ?thesis
    by (simp add: Let_def uniform_same_sizes [OF step_objects_sizes])
next
  case EXPLOSION
  with assms show ?thesis
    by (simp add: split_beta uniform_same_sizes [OF explosion_sizes])
next
  case (RESET c)
  with assms show ?thesis
    by (simp add: split_beta uniform_same_sizes [OF respawn_sizes] uniform_take)
next
  case OTHER
  with assms show ?thesis by simp
qed

lemma run_uniform: "uniform (objects w) \<Longrightarrow> uniform (objects (fst (run ms w)))"
proof (induction ms arbitrary: w)
  case Nil
  then show ?case by simp
next
  case (Cons m ms)
  from Cons.IH [OF onmessage_uniform [OF Cons.prems, of m]] show ?case
    by (simp add: split_beta Let_def)
qed

lemma onmessage_keeps_invMass:
  assumes "\<forall>qs. m \<noteq> INIT qs" "k < length (objects w)"
    "k < length (objects (fst (onmessage m w)))"
  shows "invMass (objects (fst (onmessage m w)) ! k) = invMass (objects w ! k)"
proof (cases m)
  case (INIT ps)
  with assms(1) show ?thesis by simp
next
  case (SPAWN p)
  with assms(2) show ?thesis by (simp add: nth_append)
next
  case (STEP d)
  with sizes_nth(2) [OF step_objects_sizes assms(2)] show ?thesis
    by (simp add: Let_def)
next
  case EXPLOSION
  with sizes_nth(2) [OF explosion_sizes assms(2)] show ?thesis
    by (simp add: split_beta)
next
  case (RESET c)
  from RESET assms(3) have k: "k < length (take 35 (objects w))"
    by (simp add: split_beta respawn_length)
  from RESET sizes_nth(2) [OF respawn_sizes k] k show ?thesis
    by (simp add: split_beta)
next
  case OTHER
  then show ?thesis by simp
qed

lemma uniform_split:
  assumes "invMass a = 1" "invMass b = 1"
  shows "corrA a b = overlap a b / 2" "corrB a b = overlap a b / 2"
  using assms by (simp_all add: corrA_def corrB_def)

lemma uniform_nth: "uniform objs \<Longrightarrow> i < length objs \<Longrightarrow> invMass (objs ! i) = 1"
  by (simp add: uniform_def list_all_length)

lemma resolve_uniform_hit:
  assumes "invMass a = 1" "invMass b = 1" "hit a b"
  shows "resolve a b =
    (displaced a (normal a b) (- (overlap a b / 2)),
     displaced b (normal a b) (overlap a b / 2))"
proof -
  from assms(3) have c: "distSq a b < (radius a + radius b) * (radius a + radius b)
      \<and> distSq a b > 0.00001"
    by (simp only: hit_def)
  show ?thesis
    unfolding resolve_unfold if_P [OF c] uniform_split [OF assms(1,2)] displaced_def
    by simp
qed

lemma resolve_no_hit: "\<not> hit a b \<Longrightarrow> resolve a b = (a, b)"
  unfolding resolve_unfold hit_def by (rule if_not_P)

lemma displaced_distance:
  assumes "c0 n * c0 n + c1 n * c1 n + c2 n * c2 n = 1"
  shows "(c0 (pos (displaced a n c)) - c0 (pos a)) * (c0 (pos (displaced a n c)) - c0 (pos a))
       + (c1 (pos (displaced a n c)) - c1 (pos a)) * (c1 (pos (displaced a n c)) - c1 (pos a))
       + (c2 (pos (displaced a n c)) - c2 (pos a)) * (c2 (pos (displaced a n c)) - c2 (pos a))
       = c * c"
proof -
  have "(c0 n * c) * (c0 n * c) + (c1 n * c) * (c1 n * c) + (c2 n * c) * (c2 n * c)
      = (c0 n * c0 n + c1 n * c1 n + c2 n * c2 n) * (c * c)"
    by (simp add: algebra_simps)
  then show ?thesis
    unfolding assms by (simp add: displaced_def)
qed

lemma pair_inner_length: "length (pair_inner i objs) = length objs"
  unfolding pair_inner_def
  by (rule fold_invariant [where I = "\<lambda>s. length s = length objs"])
    (simp_all add: resolve_at_length)

lemma inner_as_pairs:
  "fold (resolve_at i) js s = fold (\<lambda>(i, j). resolve_at i j) (map (Pair i) js) s"
  by (simp add: fold_map comp_def)

lemma outer_as_pairs:
  "length s = n \<Longrightarrow>
   fold pair_inner is s
     = fold (\<lambda>(i, j). resolve_at i j) (concat (map (\<lambda>i. map (Pair i) [Suc i ..< n]) is)) s"
proof (induction "is" arbitrary: s)
  case Nil
  then show ?case by simp
next
  case (Cons i "is")
  have l: "length (pair_inner i s) = n"
    using Cons.prems by (simp add: pair_inner_length)
  have one: "pair_inner i s = fold (\<lambda>(i, j). resolve_at i j) (map (Pair i) [Suc i ..< n]) s"
    unfolding pair_inner_def Cons.prems by (rule inner_as_pairs)
  show ?case
    using Cons.IH [OF l] by (simp add: one)
qed

lemma particle_constraints_pairs:
  "particle_constraints objs = fold (\<lambda>(i, j). resolve_at i j) (pairs (length objs)) objs"
  unfolding particle_constraints_def pairs_def by (rule outer_as_pairs [OF refl])

lemma pairs_sizes:
  assumes "\<forall>p\<in>set prs. fst p < snd p \<and> snd p < length objs"
  shows "sizes (fold (\<lambda>(i, j). resolve_at i j) prs objs) = sizes objs"
proof (rule fold_invariant [where I = "\<lambda>s. sizes s = sizes objs"])
  fix p s assume p: "p \<in> set prs" and s: "sizes s = sizes objs"
  from s have l: "length s = length objs" by (rule sizes_length)
  from p assms have "fst p < snd p" "snd p < length objs" by simp_all
  then have b: "fst p < length s" "snd p < length s" "fst p \<noteq> snd p" using l by simp_all
  show "sizes ((case p of (i, j) \<Rightarrow> resolve_at i j) s) = sizes objs"
    using resolve_at_sizes [OF b] s by (simp add: split_beta)
qed (rule refl)

lemma resolve_at_uniform_hit:
  assumes "uniform objs" "i < j" "j < length objs" "hit (objs ! i) (objs ! j)"
  shows "resolve_at i j objs =
    (objs[i := displaced (objs ! i) (normal (objs ! i) (objs ! j))
                 (- (overlap (objs ! i) (objs ! j) / 2))])
         [j := displaced (objs ! j) (normal (objs ! i) (objs ! j))
                 (overlap (objs ! i) (objs ! j) / 2)]"
proof -
  from assms(2,3) have i: "i < length objs" by simp
  note r = resolve_uniform_hit [OF uniform_nth [OF assms(1) i] uniform_nth [OF assms(1,3)]
    assms(4)]
  show ?thesis
    unfolding resolve_at_def r by simp
qed

lemma resolve_at_no_hit:
  assumes "i < j" "j < length objs" "\<not> hit (objs ! i) (objs ! j)"
  shows "resolve_at i j objs = objs"
  unfolding resolve_at_def resolve_no_hit [OF assms(3)] by simp

lemma step_pass_inputs_sizes:
  "sizes (map environment ((constraint_iteration ^^ n) (map (predict h) ((substep h ^^ r) objs))))
    = sizes objs"
  by (simp add: sizes_map environment_sizes predict_sizes constraint_iterations_sizes
      substeps_sizes)

lemma step_as_pairwise_steps:
  "step_objects d objs =
    ((\<lambda>s. map (velocity_update (step_h d))
        (((\<lambda>t. fold (\<lambda>(i, j). resolve_at i j) (pairs (length t)) (map environment t)) ^^ 4)
          (map (predict (step_h d)) s))) ^^ 12) objs"
proof -
  have ci: "constraint_iteration
      = (\<lambda>t. fold (\<lambda>(i, j). resolve_at i j) (pairs (length t)) (map environment t))"
    by (rule ext) (simp add: constraint_iteration_def particle_constraints_pairs)
  have ss: "substep (step_h d)
      = (\<lambda>s. map (velocity_update (step_h d))
          ((constraint_iteration ^^ 4) (map (predict (step_h d)) s)))"
    by (rule ext) (simp only: substep_def)
  show ?thesis
    unfolding step_objects_def ss ci by (rule refl)
qed

text \<open>
  C10. Every object that \<open>INIT\<close> or \<open>SPAWN\<close> puts into the store has inverse mass
  \<open>1.0\<close> and its previous position equal to its position; no message other than an
  \<open>INIT\<close> (which replaces every object) changes the inverse mass of an object that
  stays in the store; so a store whose objects all have inverse mass \<open>1.0\<close> (the empty
  initial store is one) keeps that property through every sequence of messages.
  Consequently the solver splits every correction equally. A \<open>STEP\<close> is twelve
  substeps, each of them the prediction, four iterations of the clamps followed by the
  pairwise pass, and the velocity update; the pairwise pass is the
  sequence of the pairwise steps \<open>resolve_at i j\<close> over the pairs \<open>i < j\<close>; every store
  on which a \<open>STEP\<close> runs the pass, and every store between two steps of it, has all
  inverse masses \<open>1.0\<close>; and a step on such a store, for a pair that passes the overlap
  test, moves object \<open>i\<close> by half the overlap against the unit contact normal and
  object \<open>j\<close> by half the overlap along it, each over the distance \<open>overlap / 2\<close>, and
  changes nothing else. A pair that fails the test is left alone. The shares are never
  those of an immovable object.
\<close>

theorem uniform_inverse_mass:
  "(uniform (objects w0) \<longrightarrow> uniform (objects (fst (run ms w0))))
   \<and> uniform (objects (fst (onmessage (INIT ps) w)))
   \<and> list_all (\<lambda>obj. prevPos obj = pos obj) (objects (fst (onmessage (INIT ps) w)))
   \<and> invMass (last (objects (fst (onmessage (SPAWN p) w)))) = 1
   \<and> prevPos (last (objects (fst (onmessage (SPAWN p) w))))
       = pos (last (objects (fst (onmessage (SPAWN p) w))))
   \<and> ((\<forall>qs. m \<noteq> INIT qs) \<and> k < length (objects w)
        \<and> k < length (objects (fst (onmessage m w)))
       \<longrightarrow> invMass (objects (fst (onmessage m w)) ! k) = invMass (objects w ! k))
   \<and> particle_constraints objs
       = fold (\<lambda>(i, j). resolve_at i j) (pairs (length objs)) objs
   \<and> (uniform objs \<longrightarrow>
        uniform (map environment
          ((constraint_iteration ^^ n) (map (predict h) ((substep h ^^ r) objs)))))
   \<and> (uniform objs \<and> (\<forall>p\<in>set prs. fst p < snd p \<and> snd p < length objs)
       \<longrightarrow> uniform (fold (\<lambda>(i, j). resolve_at i j) prs objs))
   \<and> (uniform objs \<and> i < j \<and> j < length objs \<and> hit (objs ! i) (objs ! j) \<longrightarrow>
       (let a = objs ! i; b = objs ! j; nrm = normal a b; half = overlap a b / 2;
            a' = displaced a nrm (- half); b' = displaced b nrm half
        in resolve_at i j objs = (objs[i := a'])[j := b']
         \<and> c0 nrm * c0 nrm + c1 nrm * c1 nrm + c2 nrm * c2 nrm = 1
         \<and> (c0 (pos a') - c0 (pos a)) * (c0 (pos a') - c0 (pos a))
           + (c1 (pos a') - c1 (pos a)) * (c1 (pos a') - c1 (pos a))
           + (c2 (pos a') - c2 (pos a)) * (c2 (pos a') - c2 (pos a)) = half * half
         \<and> (c0 (pos b') - c0 (pos b)) * (c0 (pos b') - c0 (pos b))
           + (c1 (pos b') - c1 (pos b)) * (c1 (pos b') - c1 (pos b))
           + (c2 (pos b') - c2 (pos b)) * (c2 (pos b') - c2 (pos b)) = half * half))
   \<and> (i < j \<and> j < length objs \<and> \<not> hit (objs ! i) (objs ! j)
       \<longrightarrow> resolve_at i j objs = objs)
   \<and> objects (fst (onmessage (STEP d) w)) =
       ((\<lambda>s. map (velocity_update (step_h d))
          (((\<lambda>t. fold (\<lambda>(i, j). resolve_at i j) (pairs (length t)) (map environment t)) ^^ 4)
            (map (predict (step_h d)) s))) ^^ 12) (objects w)"
proof (intro conjI impI)
  show "objects (fst (onmessage (STEP d) w)) =
       ((\<lambda>s. map (velocity_update (step_h d))
          (((\<lambda>t. fold (\<lambda>(i, j). resolve_at i j) (pairs (length t)) (map environment t)) ^^ 4)
            (map (predict (step_h d)) s))) ^^ 12) (objects w)"
    using step_as_pairwise_steps [of d "objects w"] by (simp add: Let_def)
next
  show "uniform (objects w0) \<Longrightarrow> uniform (objects (fst (run ms w0)))"
    by (rule run_uniform)
  show "uniform (objects (fst (onmessage (INIT ps) w)))"
    by (simp add: uniform_def list_all_iff make_body_def)
  show "list_all (\<lambda>obj. prevPos obj = pos obj) (objects (fst (onmessage (INIT ps) w)))"
    by (simp add: list_all_iff make_body_def)
  show "invMass (last (objects (fst (onmessage (SPAWN p) w)))) = 1"
    by (simp add: make_body_def)
  show "prevPos (last (objects (fst (onmessage (SPAWN p) w))))
       = pos (last (objects (fst (onmessage (SPAWN p) w))))"
    by (simp add: make_body_def)
  show "particle_constraints objs
       = fold (\<lambda>(i, j). resolve_at i j) (pairs (length objs)) objs"
    by (rule particle_constraints_pairs)
  show "uniform objs \<Longrightarrow> uniform (map environment
          ((constraint_iteration ^^ n) (map (predict h) ((substep h ^^ r) objs))))"
    by (simp only: uniform_same_sizes [OF step_pass_inputs_sizes])
next
  assume "(\<forall>qs. m \<noteq> INIT qs) \<and> k < length (objects w)
        \<and> k < length (objects (fst (onmessage m w)))"
  then have "\<forall>qs. m \<noteq> INIT qs" "k < length (objects w)"
    "k < length (objects (fst (onmessage m w)))"
    by simp_all
  then show "invMass (objects (fst (onmessage m w)) ! k) = invMass (objects w ! k)"
    by (rule onmessage_keeps_invMass)
next
  assume "uniform objs \<and> (\<forall>p\<in>set prs. fst p < snd p \<and> snd p < length objs)"
  then have u: "uniform objs" and v: "\<forall>p\<in>set prs. fst p < snd p \<and> snd p < length objs"
    by simp_all
  from u show "uniform (fold (\<lambda>(i, j). resolve_at i j) prs objs)"
    by (simp only: uniform_same_sizes [OF pairs_sizes [OF v]])
next
  assume "uniform objs \<and> i < j \<and> j < length objs \<and> hit (objs ! i) (objs ! j)"
  then have u: "uniform objs" and ij: "i < j" "j < length objs"
    and t: "hit (objs ! i) (objs ! j)"
    by simp_all
  from t have "distSq (objs ! i) (objs ! j) > 0" by (simp add: hit_def)
  then have unit:
    "c0 (normal (objs ! i) (objs ! j)) * c0 (normal (objs ! i) (objs ! j))
     + c1 (normal (objs ! i) (objs ! j)) * c1 (normal (objs ! i) (objs ! j))
     + c2 (normal (objs ! i) (objs ! j)) * c2 (normal (objs ! i) (objs ! j)) = 1"
    by (rule normal_unit)
  show "let a = objs ! i; b = objs ! j; nrm = normal a b; half = overlap a b / 2;
            a' = displaced a nrm (- half); b' = displaced b nrm half
        in resolve_at i j objs = (objs[i := a'])[j := b']
         \<and> c0 nrm * c0 nrm + c1 nrm * c1 nrm + c2 nrm * c2 nrm = 1
         \<and> (c0 (pos a') - c0 (pos a)) * (c0 (pos a') - c0 (pos a))
           + (c1 (pos a') - c1 (pos a)) * (c1 (pos a') - c1 (pos a))
           + (c2 (pos a') - c2 (pos a)) * (c2 (pos a') - c2 (pos a)) = half * half
         \<and> (c0 (pos b') - c0 (pos b)) * (c0 (pos b') - c0 (pos b))
           + (c1 (pos b') - c1 (pos b)) * (c1 (pos b') - c1 (pos b))
           + (c2 (pos b') - c2 (pos b)) * (c2 (pos b') - c2 (pos b)) = half * half"
    unfolding Let_def
  proof (intro conjI)
    show "resolve_at i j objs =
      (objs[i := displaced (objs ! i) (normal (objs ! i) (objs ! j))
                   (- (overlap (objs ! i) (objs ! j) / 2))])
           [j := displaced (objs ! j) (normal (objs ! i) (objs ! j))
                   (overlap (objs ! i) (objs ! j) / 2)]"
      by (rule resolve_at_uniform_hit [OF u ij t])
    show "c0 (normal (objs ! i) (objs ! j)) * c0 (normal (objs ! i) (objs ! j))
     + c1 (normal (objs ! i) (objs ! j)) * c1 (normal (objs ! i) (objs ! j))
     + c2 (normal (objs ! i) (objs ! j)) * c2 (normal (objs ! i) (objs ! j)) = 1"
      by (rule unit)
  next
    from displaced_distance [OF unit,
        of "objs ! i" "- (overlap (objs ! i) (objs ! j) / 2)"]
    show "(c0 (pos (displaced (objs ! i) (normal (objs ! i) (objs ! j))
              (- (overlap (objs ! i) (objs ! j) / 2)))) - c0 (pos (objs ! i)))
        * (c0 (pos (displaced (objs ! i) (normal (objs ! i) (objs ! j))
              (- (overlap (objs ! i) (objs ! j) / 2)))) - c0 (pos (objs ! i)))
        + (c1 (pos (displaced (objs ! i) (normal (objs ! i) (objs ! j))
              (- (overlap (objs ! i) (objs ! j) / 2)))) - c1 (pos (objs ! i)))
        * (c1 (pos (displaced (objs ! i) (normal (objs ! i) (objs ! j))
              (- (overlap (objs ! i) (objs ! j) / 2)))) - c1 (pos (objs ! i)))
        + (c2 (pos (displaced (objs ! i) (normal (objs ! i) (objs ! j))
              (- (overlap (objs ! i) (objs ! j) / 2)))) - c2 (pos (objs ! i)))
        * (c2 (pos (displaced (objs ! i) (normal (objs ! i) (objs ! j))
              (- (overlap (objs ! i) (objs ! j) / 2)))) - c2 (pos (objs ! i)))
        = overlap (objs ! i) (objs ! j) / 2 * (overlap (objs ! i) (objs ! j) / 2)"
      by simp
  next
    show "(c0 (pos (displaced (objs ! j) (normal (objs ! i) (objs ! j))
              (overlap (objs ! i) (objs ! j) / 2))) - c0 (pos (objs ! j)))
        * (c0 (pos (displaced (objs ! j) (normal (objs ! i) (objs ! j))
              (overlap (objs ! i) (objs ! j) / 2))) - c0 (pos (objs ! j)))
        + (c1 (pos (displaced (objs ! j) (normal (objs ! i) (objs ! j))
              (overlap (objs ! i) (objs ! j) / 2))) - c1 (pos (objs ! j)))
        * (c1 (pos (displaced (objs ! j) (normal (objs ! i) (objs ! j))
              (overlap (objs ! i) (objs ! j) / 2))) - c1 (pos (objs ! j)))
        + (c2 (pos (displaced (objs ! j) (normal (objs ! i) (objs ! j))
              (overlap (objs ! i) (objs ! j) / 2))) - c2 (pos (objs ! j)))
        * (c2 (pos (displaced (objs ! j) (normal (objs ! i) (objs ! j))
              (overlap (objs ! i) (objs ! j) / 2))) - c2 (pos (objs ! j)))
        = overlap (objs ! i) (objs ! j) / 2 * (overlap (objs ! i) (objs ! j) / 2)"
      by (rule displaced_distance [OF unit])
  qed
next
  assume "i < j \<and> j < length objs \<and> \<not> hit (objs ! i) (objs ! j)"
  then show "resolve_at i j objs = objs"
    by (simp add: resolve_at_no_hit)
qed

text \<open>From the empty store, a sequence of all five messages; an \<open>EXPLOSION\<close> on the
  store of \<open>mover\<close>; two unit spheres with centres one apart, which overlap by \<open>1\<close>: the
  pairwise pass moves each by \<open>1/2\<close>, apart; and two unit spheres with centres three
  apart, which the pass leaves alone.\<close>

theorem uniform_inverse_mass_witness:
  "uniform (objects empty_worker)
   \<and> uniform (objects (fst (run [INIT [flat_payload], SPAWN flat_payload, STEP None,
        EXPLOSION, RESET None, STEP (Some 2)] empty_worker)))
   \<and> (0::nat) < length (objects moving_worker)
   \<and> invMass (objects (fst (onmessage EXPLOSION moving_worker)) ! 0) = 1
   \<and> uniform [sphere 0 0 0 1, sphere 0 1 0 1]
   \<and> hit (sphere 0 0 0 1) (sphere 0 1 0 1)
   \<and> particle_constraints [sphere 0 0 0 1, sphere 0 1 0 1]
       = [(sphere 0 0 0 1)\<lparr>pos := \<lparr>c0 = 0, c1 = - (1 / 2), c2 = 0\<rparr>\<rparr>,
          (sphere 0 1 0 1)\<lparr>pos := \<lparr>c0 = 0, c1 = 3 / 2, c2 = 0\<rparr>\<rparr>]
   \<and> \<not> hit (sphere 0 0 0 1) (sphere 0 3 0 1)
   \<and> particle_constraints [sphere 0 0 0 1, sphere 0 3 0 1]
       = [sphere 0 0 0 1, sphere 0 3 0 1]
   \<and> uniform (particle_constraints [sphere 0 0 0 1, sphere 0 1 0 1])"
proof -
  let ?near = "[sphere 0 0 0 1, sphere 0 1 0 1]" and ?far = "[sphere 0 0 0 1, sphere 0 3 0 1]"
  have e: "uniform (objects empty_worker)"
    by (simp add: empty_worker_def uniform_def)
  have k: "(\<forall>qs. EXPLOSION \<noteq> INIT qs) \<and> 0 < length (objects moving_worker)
      \<and> 0 < length (objects (fst (onmessage EXPLOSION moving_worker)))"
    by (simp add: moving_worker_def Let_def split_beta)
  have m: "invMass (objects moving_worker ! 0) = 1"
    by (simp add: moving_worker_def mover_def sphere_def)
  have u: "uniform ?near" "uniform ?far"
    by (simp_all add: uniform_def sphere_def)
  have h1: "hit (sphere 0 0 0 1) (sphere 0 1 0 1)"
    and h2: "\<not> hit (sphere 0 0 0 1) (sphere 0 3 0 1)"
    by (simp_all add: hit_def distSq_def sphere_def)
  have o: "overlap (sphere 0 0 0 1) (sphere 0 1 0 1) = 1"
    "normal (sphere 0 0 0 1) (sphere 0 1 0 1) = \<lparr>c0 = 0, c1 = 1, c2 = 0\<rparr>"
    by (simp_all add: overlap_def normal_def distSq_def sphere_def)
  have p2: "pairs (length ?near) = [(0, 1)]" "pairs (length ?far) = [(0, 1)]"
    by (simp_all add: pairs_def upt_rec)
  have n2: "?near ! 0 = sphere 0 0 0 1" "?near ! 1 = sphere 0 1 0 1"
    "?far ! 0 = sphere 0 0 0 1" "?far ! 1 = sphere 0 3 0 1"
    "(0::nat) < 1" "1 < length ?near" "1 < length ?far"
    by simp_all
  note near = uniform_inverse_mass [where ?w0.0 = empty_worker
      and ms = "[INIT [flat_payload], SPAWN flat_payload, STEP None, EXPLOSION, RESET None,
        STEP (Some 2)]"
      and m = EXPLOSION and k = 0 and w = moving_worker and ps = "[]" and p = flat_payload
      and n = 0 and h = 1 and r = 0
      and objs = ?near and i = 0 and j = 1 and prs = "[(0, 1)]"]
  note far = uniform_inverse_mass [where ?w0.0 = empty_worker and ms = "[]"
      and m = EXPLOSION and k = 0 and w = moving_worker and ps = "[]" and p = flat_payload
      and n = 0 and h = 1 and r = 0
      and objs = ?far and i = 0 and j = 1 and prs = "[]"]
  note near5 = near [THEN conjunct2, THEN conjunct2, THEN conjunct2, THEN conjunct2,
      THEN conjunct2]
  note near8 = near5 [THEN conjunct2, THEN conjunct2, THEN conjunct2]
  note far10 = far [THEN conjunct2, THEN conjunct2, THEN conjunct2, THEN conjunct2,
      THEN conjunct2, THEN conjunct2, THEN conjunct2, THEN conjunct2, THEN conjunct2,
      THEN conjunct2]
  have a: "uniform (objects (fst (run [INIT [flat_payload], SPAWN flat_payload, STEP None,
        EXPLOSION, RESET None, STEP (Some 2)] empty_worker)))"
    using near [THEN conjunct1] e by (rule mp)
  have b: "invMass (objects (fst (onmessage EXPLOSION moving_worker)) ! 0) = 1"
    using near5 [THEN conjunct1, THEN mp, OF k] m by (simp only:)
  have c: "particle_constraints ?near = resolve_at 0 1 ?near"
    using near5 [THEN conjunct2, THEN conjunct1] unfolding p2 by simp
  have c': "particle_constraints ?far = resolve_at 0 1 ?far"
    using far [THEN conjunct2, THEN conjunct2, THEN conjunct2, THEN conjunct2,
      THEN conjunct2, THEN conjunct2, THEN conjunct1] unfolding p2 by simp
  have t1: "uniform ?near \<and> (0::nat) < 1 \<and> 1 < length ?near \<and> hit (?near ! 0) (?near ! 1)"
    unfolding n2 using u(1) h1 by simp
  have d: "resolve_at 0 1 ?near
      = [(sphere 0 0 0 1)\<lparr>pos := \<lparr>c0 = 0, c1 = - (1 / 2), c2 = 0\<rparr>\<rparr>,
         (sphere 0 1 0 1)\<lparr>pos := \<lparr>c0 = 0, c1 = 3 / 2, c2 = 0\<rparr>\<rparr>]"
    using near8 [THEN conjunct2, THEN conjunct1, THEN mp, OF t1]
    unfolding Let_def n2 o by (simp add: displaced_def sphere_def)
  have t2: "(0::nat) < 1 \<and> 1 < length ?far \<and> \<not> hit (?far ! 0) (?far ! 1)"
    unfolding n2 using h2 by simp
  have f: "resolve_at 0 1 ?far = ?far"
    using far10 [THEN conjunct1, THEN mp, OF t2] .
  have t3: "uniform ?near \<and> (\<forall>p\<in>set [(0::nat, 1::nat)]. fst p < snd p \<and> snd p < length ?near)"
    using u(1) by simp
  have g: "uniform (particle_constraints ?near)"
    unfolding c using near8 [THEN conjunct1, THEN mp, OF t3] by simp
  from e a k b u(1) h1 h2 c c' d f g show ?thesis
    by (simp only: simp_thms)
qed

section \<open>Containment after \<open>STEP\<close>\<close>

subsection \<open>One pairwise step moves an object by at most its share of the radii\<close>














subsection \<open>The pairwise pass moves an object by at most its tolerance\<close>










subsection \<open>The last clamp and the last pairwise pass of a \<open>STEP\<close>\<close>




subsection \<open>Two objects on one vertical line\<close>

text \<open>For two objects on one vertical line the distance is \<open>|dy|\<close>, so the pairwise
  step is rational arithmetic and \<open>simp\<close> evaluates a whole \<open>STEP\<close>.\<close>

lemma resolve_vertical:
  assumes "c0 (pos a) = c0 (pos b)" "c2 (pos a) = c2 (pos b)"
  shows "resolve a b =
    (let dy = c1 (pos b) - c1 (pos a); m = radius a + radius b
     in if dy * dy < m * m \<and> dy * dy > 0.00001 then
          (a\<lparr>pos := \<lparr>c0 = c0 (pos a),
                     c1 = c1 (pos a)
                       - dy / \<bar>dy\<bar> * ((m - \<bar>dy\<bar>) * (invMass a / (invMass a + invMass b))),
                     c2 = c2 (pos a)\<rparr>\<rparr>,
           b\<lparr>pos := \<lparr>c0 = c0 (pos b),
                     c1 = c1 (pos b)
                       + dy / \<bar>dy\<bar> * ((m - \<bar>dy\<bar>) * (invMass b / (invMass a + invMass b))),
                     c2 = c2 (pos b)\<rparr>\<rparr>)
        else (a, b))"
proof -
  have d: "distSq a b = (c1 (pos b) - c1 (pos a)) * (c1 (pos b) - c1 (pos a))"
    using assms by (simp add: distSq_def)
  have s: "sqrt (distSq a b) = \<bar>c1 (pos b) - c1 (pos a)\<bar>"
    unfolding d by simp
  show ?thesis
    unfolding resolve_unfold Let_def corrA_def corrB_def overlap_def normal_def s
    unfolding d using assms by simp
qed

lemma particle_constraints_pair:
  "particle_constraints [a, b] = (let (a', b') = resolve a b in [a', b'])"
  by (simp add: particle_constraints_def pair_inner_def resolve_at_def split_beta upt_rec)

lemmas pair_eval =
  substep_def constraint_iteration_def particle_constraints_pair resolve_vertical single_eval


text \<open>
  Two spheres at rest, one on the floor and one resting on it, show the same in the
  small: after one \<open>STEP\<close> the lower sphere is below the floor level of its radius, by
  less than \<open>0.00001\<close>. In each substep gravity lowers both spheres, the clamp lifts the
  lower one back, and the last pairwise pass pushes it down again.
\<close>

lemma resting_pair_below_floor:
  "c1 (pos (objects (fst (onmessage (STEP (Some 1)) resting)) ! 0))
     < radius (objects (fst (onmessage (STEP (Some 1)) resting)) ! 0)
   \<and> radius (objects (fst (onmessage (STEP (Some 1)) resting)) ! 0) - 0.00001
     < c1 (pos (objects (fst (onmessage (STEP (Some 1)) resting)) ! 0))"
proof -
  let ?after = "step_objects (Some 1) (objects resting)"
  have y: "c1 (pos (?after ! 0))
      = 90071585515828597945493 / 90071992547409920000000"
    by (simp add: resting_def pair_eval)
  have "radius (?after ! 0) = radius (objects resting ! 0)"
    by (rule sizes_nth(1) [OF step_objects_sizes]) (simp add: resting_def)
  then have r: "radius (?after ! 0) = 1"
    by (simp add: resting_def sphere_def)
  have o: "objects (fst (onmessage (STEP (Some 1)) resting)) = ?after"
    by (simp add: Let_def)
  show ?thesis unfolding o y r by simp
qed

subsection \<open>Containment up to the last pairwise pass\<close>




end
